theory Spec2Isabelle
  imports Main "HOL-Library.Signed_Division"
begin

section \<open>Machine integers of \<^verbatim>\<open>common/time.c\<close>\<close>

text \<open>
  The C integers are modelled as \<^typ>\<open>int\<close> with every conversion written out.
  The division \<^verbatim>\<open>/\<close> and the remainder \<^verbatim>\<open>%\<close> of C truncate towards zero: on signed
  operands they are \<^const>\<open>signed_divide\<close> and \<^const>\<open>signed_modulo\<close> (written
  \<open>sdiv\<close> and \<open>smod\<close>); on \<^verbatim>\<open>unsigned int\<close> operands, which are never negative, they are
  \<open>div\<close> and \<open>mod\<close>.

  A conversion to an unsigned type reduces modulo \<open>2 ^ w\<close>. A conversion to a signed type
  of a value out of its range, and an overflowing signed operation, wrap around in two's
  complement (what the compilers of the targets do).
\<close>

definition to_uint8 :: "int \<Rightarrow> int" where
  "to_uint8 x = x mod 2 ^ 8"

definition to_uint16 :: "int \<Rightarrow> int" where
  "to_uint16 x = x mod 2 ^ 16"

definition to_uint :: "int \<Rightarrow> int" where
  \<comment> \<open>\<^verbatim>\<open>unsigned int\<close>, 32 bits\<close>
  "to_uint x = x mod 2 ^ 32"

definition to_int32 :: "int \<Rightarrow> int" where
  "to_int32 x = (x + 2 ^ 31) mod 2 ^ 32 - 2 ^ 31"

definition to_int64 :: "int \<Rightarrow> int" where
  \<comment> \<open>\<^verbatim>\<open>rtcTime_t\<close>, milliseconds since 1970-01-01T00:00:00.000\<close>
  "to_int64 x = (x + 2 ^ 63) mod 2 ^ 64 - 2 ^ 63"

text \<open>
  Modelled from the spec: the macro \<^verbatim>\<open>ABS\<close> of \<^verbatim>\<open>common/maths.h\<close>, the absolute value
  (the spec writes \<^verbatim>\<open>abs(offsetMinutes % 60)\<close> where the code has \<^verbatim>\<open>ABS(offset % 60)\<close>).
\<close>

definition ABS :: "int \<Rightarrow> int" where
  "ABS x = (if x > 0 then x else - x)"

definition UNIX_REFERENCE_YEAR :: int where
  "UNIX_REFERENCE_YEAR = 1970"

definition MILLIS_PER_SECOND :: int where
  "MILLIS_PER_SECOND = 1000"

section \<open>Data\<close>

text \<open>
  Modelled from the spec: the declarations of \<^verbatim>\<open>common/time.h\<close>. The epoch scalar
  \<^verbatim>\<open>rtcTime_t\<close> is a signed integer counting milliseconds, taken with 64 bits,
  made from an \<^verbatim>\<open>int32\<close> of seconds and a \<^verbatim>\<open>uint16\<close> of milliseconds. The calendar
  fields are year, month (1-12), day (1-31), hour (0-23), minute (0-59), second (0-59) and
  millisecond (0-999), printed with \<^verbatim>\<open>%u\<close>: \<^verbatim>\<open>year\<close> and \<^verbatim>\<open>millis\<close> are taken as
  \<^verbatim>\<open>uint16_t\<close> and the other fields as \<^verbatim>\<open>uint8_t\<close>. Every store into a field converts
  to the type of the field.
\<close>

record dateTime_t =
  year :: int
  month :: int
  day :: int
  hours :: int
  minutes :: int
  seconds :: int
  millis :: int

definition days :: "int list list" where
  "days =
    [[   0,   31,   60,   91,  121,  152,  182,  213,  244,  274,  305,  335],
     [ 366,  397,  425,  456,  486,  517,  547,  578,  609,  639,  670,  700],
     [ 731,  762,  790,  821,  851,  882,  912,  943,  974, 1004, 1035, 1065],
     [1096, 1127, 1155, 1186, 1216, 1247, 1277, 1308, 1339, 1369, 1400, 1430]]"

definition days_at :: "nat \<Rightarrow> nat \<Rightarrow> int option" where
  \<comment> \<open>\<^verbatim>\<open>days[r][c]\<close>; a read outside the table is undefined in C: \<open>None\<close>\<close>
  "days_at r c = (if r < 4 \<and> c < 12 then Some (days ! r ! c) else None)"

section \<open>Epoch scalars\<close>

definition rtcTimeMake :: "int \<Rightarrow> int \<Rightarrow> int" where
  \<comment> \<open>the arguments are an \<^verbatim>\<open>int32_t\<close> and a \<^verbatim>\<open>uint16_t\<close>\<close>
  "rtcTimeMake secs ms = to_int64 (to_int32 secs * MILLIS_PER_SECOND + to_uint16 ms)"

definition rtcTimeGetSeconds :: "int \<Rightarrow> int" where
  "rtcTimeGetSeconds t = to_int32 (t sdiv MILLIS_PER_SECOND)"

definition rtcTimeGetMillis :: "int \<Rightarrow> int" where
  "rtcTimeGetMillis t = to_uint16 (t smod MILLIS_PER_SECOND)"

section \<open>Calendar fields to epoch scalar\<close>

definition dateTimeToRtcTime :: "dateTime_t \<Rightarrow> int option" where
  "dateTimeToRtcTime dt =
    (let second = to_uint (seconds dt);
         minute = to_uint (minutes dt);
         hour = to_uint (hours dt);
         day = to_uint (day dt - 1);
         month = to_uint (month dt - 1);
         year = to_uint (year dt - UNIX_REFERENCE_YEAR)
     in case days_at (nat (year mod 4)) (nat month) of
          None \<Rightarrow> None
        | Some d \<Rightarrow>
            (let unixTime = to_int32 (to_uint (to_uint (to_uint (to_uint (to_uint (to_uint
                   (to_uint (to_uint (year div 4 * (365 * 4 + 1)) + d) + day)
                     * 24) + hour) * 60) + minute) * 60) + second)
             in Some (rtcTimeMake unixTime (millis dt))))"

section \<open>Epoch scalar to calendar fields\<close>

text \<open>
  The two downward scans of the table. \<open>scan_year u 3\<close> is the value of \<^verbatim>\<open>year\<close> after
  \<^verbatim>\<open>for (year = 3; year > 0; year--) if (unixTime >= days[year][0]) break;\<close> and
  \<open>scan_month u y 11\<close> that of \<^verbatim>\<open>month\<close> after the second loop. The loop counters stay
  inside the table.
\<close>

fun scan_year :: "int \<Rightarrow> nat \<Rightarrow> nat" where
  "scan_year u 0 = 0"
| "scan_year u (Suc y) = (if u \<ge> days ! Suc y ! 0 then Suc y else scan_year u y)"

fun scan_month :: "int \<Rightarrow> nat \<Rightarrow> nat \<Rightarrow> nat" where
  "scan_month u y 0 = 0"
| "scan_month u y (Suc m) = (if u \<ge> days ! y ! Suc m then Suc m else scan_month u y m)"

definition rtcTimeToDateTime :: "dateTime_t \<Rightarrow> int \<Rightarrow> dateTime_t" where
  "rtcTimeToDateTime dt t =
    (let unixTime = to_int32 (t sdiv MILLIS_PER_SECOND);
         dt = dt\<lparr>seconds := to_uint8 (unixTime smod 60)\<rparr>;
         unixTime = unixTime sdiv 60;
         dt = dt\<lparr>minutes := to_uint8 (unixTime smod 60)\<rparr>;
         unixTime = unixTime sdiv 60;
         dt = dt\<lparr>hours := to_uint8 (unixTime smod 24)\<rparr>;
         unixTime = unixTime sdiv 24;
         years = to_uint (unixTime sdiv (365 * 4 + 1) * 4);
         unixTime = unixTime smod (365 * 4 + 1);
         year = scan_year unixTime 3;
         month = scan_month unixTime year 11;
         dt = dt\<lparr>year := to_uint16 (to_uint (to_uint (years + int year) + UNIX_REFERENCE_YEAR))\<rparr>;
         dt = dt\<lparr>month := to_uint8 (to_uint (int month + 1))\<rparr>;
         dt = dt\<lparr>day := to_uint8 (to_int32 (unixTime - days ! year ! month + 1))\<rparr>;
         dt = dt\<lparr>millis := to_uint16 (t smod MILLIS_PER_SECOND)\<rparr>
     in dt)"

section \<open>Formatting\<close>

text \<open>
  Modelled from the spec: \<^verbatim>\<open>tfp_sprintf\<close> (\<^verbatim>\<open>common/printf.c\<close>), of which only the call is in
  \<^verbatim>\<open>common/time.c\<close>. The spec takes it as "a formatting primitive equivalent to fixed-field
  printf-style rendering": \<^verbatim>\<open>%0wu\<close> and \<^verbatim>\<open>%0wd\<close> print a number in decimal, padded with
  zeros on the left to at least \<open>w\<close> characters; \<^verbatim>\<open>%c\<close> prints one character.
\<close>

definition digit :: "nat \<Rightarrow> char" where
  \<comment> \<open>used below 10 only\<close>
  "digit n = ''0123456789'' ! n"

fun decimal :: "nat \<Rightarrow> string" where
  "decimal n = (if n < 10 then [digit n] else decimal (n div 10) @ [digit (n mod 10)])"

declare decimal.simps [simp del]

definition zero_pad :: "nat \<Rightarrow> string \<Rightarrow> string" where
  "zero_pad w s = replicate (w - length s) (CHR ''0'') @ s"

definition fmt_u :: "nat \<Rightarrow> int \<Rightarrow> string" where
  \<comment> \<open>\<^verbatim>\<open>%0wu\<close>: the argument is read as an \<^verbatim>\<open>unsigned int\<close>\<close>
  "fmt_u w x = zero_pad w (decimal (nat (to_uint x)))"

definition fmt_d :: "nat \<Rightarrow> int \<Rightarrow> string" where
  \<comment> \<open>\<^verbatim>\<open>%0wd\<close>: the sign, when there is one, counts in the width\<close>
  "fmt_d w x = (if x < 0 then CHR ''-'' # zero_pad (w - 1) (decimal (nat (- x)))
                else zero_pad w (decimal (nat x)))"

definition local_init :: dateTime_t where
  \<comment> \<open>\<^verbatim>\<open>dateTime_t local;\<close> is not initialised: \<^verbatim>\<open>rtcTimeToDateTime\<close> stores into every field\<close>
  "local_init = \<lparr>year = 0, month = 0, day = 0, hours = 0, minutes = 0, seconds = 0, millis = 0\<rparr>"

definition dateTimeFormat :: "dateTime_t \<Rightarrow> int \<Rightarrow> string option" where
  \<comment> \<open>\<open>offset\<close> is an \<^verbatim>\<open>int16_t\<close>; \<open>None\<close> when the table is read out of bounds\<close>
  "dateTimeFormat dateTime offset =
    (let shifted =
           (if offset \<noteq> 0 then
              (case dateTimeToRtcTime dateTime of
                 None \<Rightarrow> None
               | Some utcTime \<Rightarrow>
                   (let localTime = rtcTimeMake
                          (to_int32 (rtcTimeGetSeconds utcTime + offset * 60))
                          (rtcTimeGetMillis utcTime)
                    in Some (offset sdiv 60, ABS (offset smod 60),
                             rtcTimeToDateTime local_init localTime)))
            else Some (0, 0, dateTime))
     in case shifted of
          None \<Rightarrow> None
        | Some (tz_hours, tz_minutes, dateTime) \<Rightarrow>
            Some (fmt_u 4 (year dateTime) @ ''-'' @ fmt_u 2 (month dateTime) @ ''-''
                  @ fmt_u 2 (day dateTime) @ ''T'' @ fmt_u 2 (hours dateTime) @ '':''
                  @ fmt_u 2 (minutes dateTime) @ '':'' @ fmt_u 2 (seconds dateTime) @ ''.''
                  @ fmt_u 3 (millis dateTime)
                  @ [if tz_hours \<ge> 0 then CHR ''+'' else CHR ''-'']
                  @ fmt_d 2 (ABS tz_hours) @ '':'' @ fmt_d 2 tz_minutes))"

definition dateTimeFormatUTC :: "dateTime_t \<Rightarrow> string option" where
  "dateTimeFormatUTC dt = dateTimeFormat dt 0"

definition dateTimeFormatLocal :: "int \<Rightarrow> dateTime_t \<Rightarrow> string option" where
  \<comment> \<open>the first argument is \<^verbatim>\<open>timeConfig()->tz_offset\<close>, an \<^verbatim>\<open>int16_t\<close>\<close>
  "dateTimeFormatLocal tz_offset dt = dateTimeFormat dt tz_offset"

section \<open>The clock\<close>

text \<open>
  The state is the file-scoped \<^verbatim>\<open>started\<close>, initially 0. \<^verbatim>\<open>millis()\<close> (\<^verbatim>\<open>drivers/time.h\<close>)
  is the uptime in milliseconds, a \<^verbatim>\<open>uint32_t\<close>: the value it returns at the call is the
  argument \<open>now\<close>.
\<close>

definition started_init :: int where
  "started_init = 0"

definition rtcHasTime :: "int \<Rightarrow> bool" where
  "rtcHasTime started = (started \<noteq> 0)"

definition rtcGet :: "int \<Rightarrow> int \<Rightarrow> int option" where
  \<comment> \<open>\<open>None\<close> is the return value \<^verbatim>\<open>false\<close>, with \<^verbatim>\<open>*t\<close> untouched\<close>
  "rtcGet started now =
    (if \<not> rtcHasTime started then None else Some (to_int64 (started + now)))"

definition rtcSet :: "int \<Rightarrow> int \<Rightarrow> int \<Rightarrow> int \<times> bool" where
  \<comment> \<open>the new value of \<^verbatim>\<open>started\<close> and the return value\<close>
  "rtcSet started t now = (to_int64 (t - now), True)"

definition rtcGetDateTime :: "int \<Rightarrow> int \<Rightarrow> dateTime_t \<Rightarrow> dateTime_t \<times> bool" where
  "rtcGetDateTime started now dt =
    (case rtcGet started now of
       Some t \<Rightarrow> (rtcTimeToDateTime dt t, True)
     | None \<Rightarrow>
         (dt\<lparr>year := 0, month := 1, day := 1, hours := 0, minutes := 0, seconds := 0,
             millis := 0\<rparr>, False))"

definition rtcSetDateTime :: "int \<Rightarrow> dateTime_t \<Rightarrow> int \<Rightarrow> (int \<times> bool) option" where
  "rtcSetDateTime started dt now =
    (case dateTimeToRtcTime dt of
       None \<Rightarrow> None
     | Some t \<Rightarrow> Some (rtcSet started t now))"

text \<open>A run of the clock: each operation with the uptime at which it is called.\<close>

datatype rtc_op = Set int | Get

fun rtc_step :: "int \<Rightarrow> rtc_op \<times> int \<Rightarrow> int" where
  "rtc_step started (Set t, now) = fst (rtcSet started t now)"
| "rtc_step started (Get, now) = started"

definition rtc_run :: "int \<Rightarrow> (rtc_op \<times> int) list \<Rightarrow> int" where
  "rtc_run started ops = foldl rtc_step started ops"

section \<open>Vocabulary of the properties\<close>

text \<open>
  The month lengths that the table embeds: \<open>days_next r m\<close> is the entry that follows
  \<open>days[r][m]\<close> (the first entry of the next row after a December, the 1461 days of the
  four-year group after the last December).
\<close>

definition days_next :: "nat \<Rightarrow> nat \<Rightarrow> int" where
  "days_next r m =
    (if m < 11 then days ! r ! Suc m else if r < 3 then days ! Suc r ! 0 else 1461)"

definition month_len :: "nat \<Rightarrow> nat \<Rightarrow> int" where
  "month_len r m = days_next r m - days ! r ! m"

definition nominal_range :: "dateTime_t \<Rightarrow> bool" where
  "nominal_range f =
    (1 \<le> month f \<and> month f \<le> 12 \<and> 1 \<le> day f \<and> day f \<le> 31
     \<and> 0 \<le> hours f \<and> hours f \<le> 23 \<and> 0 \<le> minutes f \<and> minutes f \<le> 59
     \<and> 0 \<le> seconds f \<and> seconds f \<le> 59 \<and> 0 \<le> millis f \<and> millis f \<le> 999)"

text \<open>
  The fields whose count of whole seconds fits an \<^verbatim>\<open>int32_t\<close>: the instants up to
  2038-01-19T03:14:07.
\<close>

definition fits_int32 :: "dateTime_t \<Rightarrow> bool" where
  "fits_int32 f =
    (year f < 2038 \<or>
     (year f = 2038 \<and> month f = 1 \<and>
       (day f < 19 \<or>
        (day f = 19 \<and>
          (hours f < 3 \<or>
           (hours f = 3 \<and> (minutes f < 14 \<or> (minutes f = 14 \<and> seconds f \<le> 7))))))))"

section \<open>Conversions and divisions inside the range of a type\<close>

lemma to_uint8_id: "0 \<le> x \<Longrightarrow> x < 256 \<Longrightarrow> to_uint8 x = x"
  by (simp add: to_uint8_def)

lemma to_uint16_id: "0 \<le> x \<Longrightarrow> x < 65536 \<Longrightarrow> to_uint16 x = x"
  by (simp add: to_uint16_def)

lemma to_uint_id: "0 \<le> x \<Longrightarrow> x < 4294967296 \<Longrightarrow> to_uint x = x"
  by (simp add: to_uint_def)

lemma to_int32_id: "- 2147483648 \<le> x \<Longrightarrow> x < 2147483648 \<Longrightarrow> to_int32 x = x"
  by (simp add: to_int32_def)

lemma to_int64_id: "- 9223372036854775808 \<le> x \<Longrightarrow> x < 9223372036854775808 \<Longrightarrow> to_int64 x = x"
  by (simp add: to_int64_def)

lemma sdiv_nonneg: "0 \<le> a \<Longrightarrow> 0 < b \<Longrightarrow> a sdiv b = a div (b::int)"
  by (simp add: signed_divide_int_def sgn_if)

lemma smod_nonneg: "0 \<le> a \<Longrightarrow> 0 < b \<Longrightarrow> a smod b = a mod (b::int)"
  by (simp add: signed_modulo_int_def sgn_if)

section \<open>The scans of the table\<close>

lemma scan_year_le: "scan_year u k \<le> k"
  by (induction k) auto

lemma scan_year_lower: "days ! 0 ! 0 \<le> u \<Longrightarrow> days ! scan_year u k ! 0 \<le> u"
  by (induction k) auto

lemma scan_year_upper: "scan_year u k < j \<Longrightarrow> j \<le> k \<Longrightarrow> u < days ! j ! 0"
  by (induction k) (auto simp: le_Suc_eq split: if_splits)

lemma scan_year_unique:
  "r \<le> k \<Longrightarrow> days ! r ! 0 \<le> u \<Longrightarrow> (\<And>j. r < j \<Longrightarrow> j \<le> k \<Longrightarrow> u < days ! j ! 0) \<Longrightarrow> scan_year u k = r"
proof (induction k)
  case 0
  then show ?case by simp
next
  case (Suc k)
  show ?case
  proof (cases "r = Suc k")
    case True
    with Suc.prems show ?thesis by simp
  next
    case False
    with Suc.prems have rk: "r \<le> k" and lt: "r < Suc k" by simp_all
    have "u < days ! Suc k ! 0" using Suc.prems(3) [OF lt] by simp
    moreover have "scan_year u k = r"
      using Suc.IH [OF rk Suc.prems(2)] Suc.prems(3) by simp
    ultimately show ?thesis by simp
  qed
qed

lemma scan_month_le: "scan_month u y k \<le> k"
  by (induction k) auto

lemma scan_month_lower: "days ! y ! 0 \<le> u \<Longrightarrow> days ! y ! scan_month u y k \<le> u"
  by (induction k) auto

lemma scan_month_upper: "scan_month u y k < j \<Longrightarrow> j \<le> k \<Longrightarrow> u < days ! y ! j"
  by (induction k) (auto simp: le_Suc_eq split: if_splits)

lemma scan_month_unique:
  "m \<le> k \<Longrightarrow> days ! y ! m \<le> u \<Longrightarrow> (\<And>j. m < j \<Longrightarrow> j \<le> k \<Longrightarrow> u < days ! y ! j) \<Longrightarrow> scan_month u y k = m"
proof (induction k)
  case 0
  then show ?case by simp
next
  case (Suc k)
  show ?case
  proof (cases "m = Suc k")
    case True
    with Suc.prems show ?thesis by simp
  next
    case False
    with Suc.prems have mk: "m \<le> k" and lt: "m < Suc k" by simp_all
    have "u < days ! y ! Suc k" using Suc.prems(3) [OF lt] by simp
    moreover have "scan_month u y k = m"
      using Suc.IH [OF mk Suc.prems(2)] Suc.prems(3) by simp
    ultimately show ?thesis by simp
  qed
qed

lemma row_cases: "r < (4::nat) \<Longrightarrow> r = 0 \<or> r = 1 \<or> r = 2 \<or> r = 3"
  by arith

lemma col_cases: "m < (12::nat) \<Longrightarrow>
  m = 0 \<or> m = 1 \<or> m = 2 \<or> m = 3 \<or> m = 4 \<or> m = 5 \<or> m = 6 \<or> m = 7 \<or> m = 8 \<or> m = 9 \<or> m = 10 \<or> m = 11"
  by arith

lemma days_first: "days ! 0 ! 0 = 0"
  by (simp add: days_def)

lemma rtcTimeToDateTime_fields:
  "rtcTimeToDateTime dt t =
    (let u0 = to_int32 (t sdiv 1000);
         u3 = u0 sdiv 60 sdiv 60 sdiv 24;
         u = u3 smod 1461;
         y = scan_year u 3;
         m = scan_month u y 11
     in \<lparr>year = to_uint16 (to_uint (to_uint (to_uint (u3 sdiv 1461 * 4) + int y) + 1970)),
         month = to_uint8 (to_uint (int m + 1)),
         day = to_uint8 (to_int32 (u - days ! y ! m + 1)),
         hours = to_uint8 (u0 sdiv 60 sdiv 60 smod 24),
         minutes = to_uint8 (u0 sdiv 60 smod 60),
         seconds = to_uint8 (u0 smod 60),
         millis = to_uint16 (t smod 1000)\<rparr>)"
  by (simp add: rtcTimeToDateTime_def Let_def MILLIS_PER_SECOND_def UNIX_REFERENCE_YEAR_def)

lemma table_entry_bounds:
  assumes "r < 4" "m < 12"
  shows "0 \<le> days ! r ! m" and "days ! r ! m \<le> 1430" and "days ! r ! 0 \<le> days ! r ! m"
  using row_cases [OF assms(1)] col_cases [OF assms(2)]
  by (auto simp: days_def)

lemma month_len_bounds:
  assumes "r < 4" "m < 12"
  shows "28 \<le> month_len r m" and "month_len r m \<le> 31"
  using row_cases [OF assms(1)] col_cases [OF assms(2)]
  by (auto simp: month_len_def days_next_def days_def)

text \<open>The position that the two scans give to a day count inside the four-year group.\<close>

lemma scan_position:
  assumes "0 \<le> u" "u < 1461"
  defines "y \<equiv> scan_year u 3" 
  defines "m \<equiv> scan_month u y 11"
  shows "y < 4" and "m < 12" and "days ! y ! m \<le> u" and "u < days_next y m"
proof -
  show y: "y < 4" using scan_year_le [of u 3] by (simp add: y_def)
  show m: "m < 12" using scan_month_le [of u y 11] by (simp add: m_def)
  have y0: "days ! y ! 0 \<le> u"
    unfolding y_def using assms(1) by (intro scan_year_lower) (simp add: days_first)
  show "days ! y ! m \<le> u"
    unfolding m_def using y0 by (rule scan_month_lower)
  show "u < days_next y m"
  proof (cases "m < 11")
    case True
    then have "scan_month u y 11 < Suc m" "Suc m \<le> 11" by (simp_all add: m_def)
    then have "u < days ! y ! Suc m" by (rule scan_month_upper)
    with True show ?thesis by (simp add: days_next_def)
  next
    case False
    show ?thesis
    proof (cases "y < 3")
      case True
      then have "scan_year u 3 < Suc y" "Suc y \<le> 3" by (simp_all add: y_def)
      then have "u < days ! Suc y ! 0" by (rule scan_year_upper)
      with True False show ?thesis by (simp add: days_next_def)
    next
      case y3: False
      with False assms(2) show ?thesis by (simp add: days_next_def)
    qed
  qed
qed

text \<open>The pieces of a non-negative number of seconds below \<open>2^31\<close>.\<close>

lemma seconds_split:
  fixes s :: int
  assumes "0 \<le> s" "s < 2147483648"
  shows "to_int32 s = s"
    and "s smod 60 = s mod 60"
    and "s sdiv 60 smod 60 = s div 60 mod 60"
    and "s sdiv 60 sdiv 60 smod 24 = s div 3600 mod 24"
    and "s sdiv 60 sdiv 60 sdiv 24 = s div 86400"
    and "s div 86400 \<le> 24855"
proof -
  show "to_int32 s = s" using assms by (simp add: to_int32_id)
  show "s smod 60 = s mod 60" using assms by (simp add: smod_nonneg)
  have d1: "s sdiv 60 = s div 60" using assms by (simp add: sdiv_nonneg)
  have n1: "0 \<le> s div 60" using assms by simp
  show "s sdiv 60 smod 60 = s div 60 mod 60" using n1 by (simp add: d1 smod_nonneg)
  have d2: "s div 60 sdiv 60 = s div 3600" using n1 by (simp add: sdiv_nonneg div_mult2_eq [symmetric])
  have n2: "0 \<le> s div 3600" using assms by simp
  show "s sdiv 60 sdiv 60 smod 24 = s div 3600 mod 24" using n2 by (simp add: d1 d2 smod_nonneg)
  show "s sdiv 60 sdiv 60 sdiv 24 = s div 86400"
    using n2 by (simp add: d1 d2 sdiv_nonneg div_mult2_eq [symmetric])
  show "s div 86400 \<le> 24855" using assms by simp
qed

lemma rtcTimeToDateTime_in_range:
  assumes t: "0 \<le> t" "t div 1000 < 2147483648"
  defines "s \<equiv> t div 1000"
  defines "u \<equiv> s div 86400 mod 1461"
  defines "y \<equiv> scan_year u 3"
  defines "m \<equiv> scan_month u y 11"
  shows "rtcTimeToDateTime dt t =
    \<lparr>year = s div 86400 div 1461 * 4 + int y + 1970,
     month = int m + 1,
     day = u - days ! y ! m + 1,
     hours = s div 3600 mod 24,
     minutes = s div 60 mod 60,
     seconds = s mod 60,
     millis = t mod 1000\<rparr>"
proof -
  have s: "0 \<le> s" "s < 2147483648" using t by (simp_all add: s_def)
  have ts: "t sdiv 1000 = s" using t by (simp add: sdiv_nonneg s_def)
  note sp = seconds_split [OF s]
  have D: "0 \<le> s div 86400" using s by simp
  have g: "0 \<le> s div 86400 div 1461" "s div 86400 div 1461 \<le> 17"
    using D sp(6) by simp_all
  have u: "0 \<le> u" "u < 1461" by (simp_all add: u_def)
  have pos: "y < 4" "m < 12" "days ! y ! m \<le> u" "u < days_next y m"
    using scan_position [OF u] by (simp_all add: y_def m_def)
  have len: "days_next y m - days ! y ! m \<le> 31"
    using month_len_bounds(2) [OF pos(1,2)] by (simp add: month_len_def)
  have c_year: "to_uint16 (to_uint (to_uint (to_uint (s div 86400 div 1461 * 4) + int y) + 1970))
      = s div 86400 div 1461 * 4 + int y + 1970"
    using g pos(1) by (simp add: to_uint_id to_uint16_id)
  have c_month: "to_uint8 (to_uint (int m + 1)) = int m + 1"
    using pos(2) by (simp add: to_uint_id to_uint8_id)
  have c_day: "to_uint8 (to_int32 (u - days ! y ! m + 1)) = u - days ! y ! m + 1"
    using pos(3,4) len by (simp add: to_int32_id to_uint8_id)
  have c_h: "to_uint8 (s div 3600 mod 24) = s div 3600 mod 24"
    by (simp add: to_uint8_id)
  have c_mi: "to_uint8 (s div 60 mod 60) = s div 60 mod 60"
    by (simp add: to_uint8_id)
  have c_s: "to_uint8 (s mod 60) = s mod 60"
    by (simp add: to_uint8_id)
  have c_ms: "to_uint16 (t smod 1000) = t mod 1000"
    using t by (simp add: smod_nonneg to_uint16_id)
  have ds: "s div 86400 sdiv 1461 = s div 86400 div 1461" "s div 86400 smod 1461 = u"
    using D by (simp_all add: sdiv_nonneg smod_nonneg u_def)
  show ?thesis
    unfolding rtcTimeToDateTime_fields Let_def ts sp ds
    unfolding y_def [symmetric] m_def [symmetric]
    unfolding c_year c_month c_day c_h c_mi c_s c_ms ..
qed

lemma dateTimeToRtcTime_in_range:
  assumes y: "1970 \<le> year dt" "year dt < 65536"
    and mo: "1 \<le> month dt" "month dt \<le> 12"
    and d: "1 \<le> day dt"
    and h: "0 \<le> hours dt" and mi: "0 \<le> minutes dt" and sec: "0 \<le> seconds dt"
    and ms: "0 \<le> millis dt" "millis dt < 1000"
  defines "r \<equiv> nat ((year dt - 1970) mod 4)"
  defines "T \<equiv> ((((year dt - 1970) div 4 * 1461 + days ! r ! nat (month dt - 1) + (day dt - 1)) * 24
                  + hours dt) * 60 + minutes dt) * 60 + seconds dt"
  assumes T: "T < 2147483648"
  shows "dateTimeToRtcTime dt = Some (T * 1000 + millis dt)"
proof -
  define g where "g = (year dt - 1970) div 4"
  define e where "e = days ! r ! nat (month dt - 1)"
  have r4: "r < 4" by (simp add: r_def nat_less_iff)
  have m12: "nat (month dt - 1) < 12" using mo by simp
  have e0: "0 \<le> e" unfolding e_def using table_entry_bounds(1) [OF r4 m12] .
  have g0: "0 \<le> g" using y by (simp add: g_def)
  have T_eq: "T = (((g * 1461 + e + (day dt - 1)) * 24 + hours dt) * 60 + minutes dt) * 60 + seconds dt"
    by (simp add: T_def g_def e_def)
  have b1: "0 \<le> g * 1461" "g * 1461 < 4294967296"
    using g0 e0 d h mi sec T unfolding T_eq by simp_all
  have b2: "0 \<le> g * 1461 + e" "g * 1461 + e < 4294967296"
    using g0 e0 d h mi sec T unfolding T_eq by simp_all
  have b3: "0 \<le> g * 1461 + e + (day dt - 1)" "g * 1461 + e + (day dt - 1) < 4294967296"
    using g0 e0 d h mi sec T unfolding T_eq by simp_all
  have b4: "(g * 1461 + e + (day dt - 1)) * 24 < 4294967296"
    using g0 e0 d h mi sec T unfolding T_eq by simp
  have b5: "0 \<le> (g * 1461 + e + (day dt - 1)) * 24 + hours dt"
      "(g * 1461 + e + (day dt - 1)) * 24 + hours dt < 4294967296"
    using g0 e0 d h mi sec T unfolding T_eq by simp_all
  have b6: "((g * 1461 + e + (day dt - 1)) * 24 + hours dt) * 60 < 4294967296"
    using g0 e0 d h mi sec T unfolding T_eq by simp
  have b7: "0 \<le> ((g * 1461 + e + (day dt - 1)) * 24 + hours dt) * 60 + minutes dt"
      "((g * 1461 + e + (day dt - 1)) * 24 + hours dt) * 60 + minutes dt < 4294967296"
    using g0 e0 d h mi sec T unfolding T_eq by simp_all
  have b8: "(((g * 1461 + e + (day dt - 1)) * 24 + hours dt) * 60 + minutes dt) * 60 < 4294967296"
    using g0 e0 d h mi sec T unfolding T_eq by simp
  have b9: "0 \<le> T" using g0 e0 d h mi sec unfolding T_eq by simp
  have hb: "hours dt < 4294967296" "minutes dt < 4294967296" "seconds dt < 4294967296"
    using g0 e0 d h mi sec T unfolding T_eq by simp_all
  have db: "day dt - 1 < 4294967296" using b3 b2 by simp
  have conv: "to_uint (seconds dt) = seconds dt" "to_uint (minutes dt) = minutes dt"
      "to_uint (hours dt) = hours dt" "to_uint (day dt - 1) = day dt - 1"
      "to_uint (month dt - 1) = month dt - 1" "to_uint (year dt - 1970) = year dt - 1970"
    using y mo d h mi sec hb db by (simp_all add: to_uint_id)
  have look: "days_at (nat ((year dt - 1970) mod 4)) (nat (month dt - 1)) = Some e"
    using r4 m12 by (simp add: days_at_def e_def r_def)
  have arith: "to_int32 (to_uint (to_uint (to_uint (to_uint (to_uint (to_uint
                   (to_uint (to_uint (g * 1461) + e) + (day dt - 1))
                     * 24) + hours dt) * 60) + minutes dt) * 60) + seconds dt) = T"
    using b1 b2 b3 b4 b5 b6 b7 b8 b9 T e0 g0 unfolding T_eq
    by (simp add: to_uint_id to_int32_id)
  have mk: "rtcTimeMake T (millis dt) = T * 1000 + millis dt"
    using b9 T ms by (simp add: rtcTimeMake_def MILLIS_PER_SECOND_def to_int32_id to_uint16_id to_int64_id)
  show ?thesis
    unfolding dateTimeToRtcTime_def Let_def UNIX_REFERENCE_YEAR_def conv look
    using arith mk by (simp add: g_def)
qed

lemma seconds_recompose:
  fixes s :: int
  shows "((s div 86400 * 24 + s div 3600 mod 24) * 60 + s div 60 mod 60) * 60 + s mod 60 = s"
proof -
  have e1: "s div 86400 = s div 3600 div 24"
    using zdiv_zmult2_eq [of 24 s 3600] by simp
  have e2: "s div 3600 = s div 60 div 60"
    using zdiv_zmult2_eq [of 60 s 60] by simp
  have a: "s div 86400 * 24 + s div 3600 mod 24 = s div 3600"
    unfolding e1 by (rule div_mult_mod_eq)
  have b: "s div 3600 * 60 + s div 60 mod 60 = s div 60"
    unfolding e2 by (rule div_mult_mod_eq)
  have c: "s div 60 * 60 + s mod 60 = s"
    by (rule div_mult_mod_eq)
  show ?thesis unfolding a b c ..
qed

lemma epoch_roundtrip:
  assumes t: "0 \<le> t" "t div 1000 < 2147483648"
  shows "dateTimeToRtcTime (rtcTimeToDateTime dt t) = Some t"
proof -
  define s where "s = t div 1000"
  define D where "D = s div 86400"
  define u where "u = D mod 1461"
  define y where "y = scan_year u 3"
  define m where "m = scan_month u y 11"
  define f where "f = rtcTimeToDateTime dt t"
  have f: "f = \<lparr>year = D div 1461 * 4 + int y + 1970, month = int m + 1,
     day = u - days ! y ! m + 1, hours = s div 3600 mod 24, minutes = s div 60 mod 60,
     seconds = s mod 60, millis = t mod 1000\<rparr>"
    unfolding f_def s_def D_def u_def y_def m_def
    by (rule rtcTimeToDateTime_in_range [OF t])
  have s: "0 \<le> s" "s < 2147483648" using t by (simp_all add: s_def)
  have D: "0 \<le> D" "D \<le> 24855" using s by (simp_all add: D_def)
  have u: "0 \<le> u" "u < 1461" by (simp_all add: u_def)
  have pos: "y < 4" "m < 12" "days ! y ! m \<le> u" "u < days_next y m"
    using scan_position [OF u] by (simp_all add: y_def m_def)
  have g: "0 \<le> D div 1461" "D div 1461 \<le> 17" using D by simp_all
  have yr: "(year f - 1970) div 4 = D div 1461" "nat ((year f - 1970) mod 4) = y"
    using pos(1) by (simp_all add: f)
  have mon: "nat (month f - 1) = m" by (simp add: f)
  have Du: "D div 1461 * 1461 + u = D" by (simp add: u_def)
  have total: "((((year f - 1970) div 4 * 1461 + days ! nat ((year f - 1970) mod 4) ! nat (month f - 1)
                   + (day f - 1)) * 24 + hours f) * 60 + minutes f) * 60 + seconds f = s"
    unfolding yr mon
    using Du seconds_recompose [of s] by (simp add: f D_def)
  have "dateTimeToRtcTime f = Some (s * 1000 + millis f)"
    using dateTimeToRtcTime_in_range [of f, unfolded total] g pos s
    by (simp add: f)
  moreover have "s * 1000 + millis f = t" by (simp add: f s_def)
  ultimately show ?thesis by (simp add: f_def)
qed


section \<open>From calendar fields to the epoch scalar and back\<close>

lemma rows_sorted:
  assumes "r < 4"
  shows "sorted (days ! r)" and "length (days ! r) = 12"
  using row_cases [OF assms] by (auto simp: days_def)

lemma days_next_le_group: "r < 4 \<Longrightarrow> m < 12 \<Longrightarrow> days_next r m \<le> 1461"
  by (drule row_cases, drule col_cases) (auto simp: days_next_def days_def)

lemma days_next_le_row: "r < j \<Longrightarrow> j < 4 \<Longrightarrow> m < 12 \<Longrightarrow> days_next r m \<le> days ! j ! 0"
proof -
  assume a: "r < j" "j < 4" "m < 12"
  then have r: "r < 4" by simp
  show ?thesis
    using row_cases [OF r] row_cases [OF a(2)] col_cases [OF a(3)] a(1)
    by (auto simp: days_next_def days_def)
qed

lemma days_next_le_col:
  assumes "r < 4" "m < j" "j < 12"
  shows "days_next r m \<le> days ! r ! j"
proof -
  have "days ! r ! Suc m \<le> days ! r ! j"
    using rows_sorted [OF assms(1)] assms(2,3) by (intro sorted_nth_mono) simp_all
  with assms show ?thesis by (simp add: days_next_def)
qed

lemma divmod_step:
  fixes a b c :: int
  assumes "0 \<le> b" "b < c"
  shows "(a * c + b) div c = a" and "(a * c + b) mod c = b"
proof -
  have c: "c \<noteq> 0" using assms by simp
  have "(b + a * c) div c = a + b div c" using c by simp
  then show "(a * c + b) div c = a" using assms by (simp add: add.commute)
  have "(b + a * c) mod c = b mod c" by simp
  then show "(a * c + b) mod c = b" using assms by (simp add: add.commute)
qed

lemma seconds_pieces:
  fixes D h mi sec :: int
  assumes "0 \<le> h" "h < 24" "0 \<le> mi" "mi < 60" "0 \<le> sec" "sec < 60"
  defines "T \<equiv> ((D * 24 + h) * 60 + mi) * 60 + sec"
  shows "T mod 60 = sec" and "T div 60 mod 60 = mi" and "T div 3600 mod 24 = h" and "T div 86400 = D"
proof -
  have T60: "T div 60 = (D * 24 + h) * 60 + mi"
    unfolding T_def using assms(5,6) by (rule divmod_step)
  show "T mod 60 = sec"
    unfolding T_def using assms(5,6) by (rule divmod_step)
  show "T div 60 mod 60 = mi"
    unfolding T60 using assms(3,4) by (rule divmod_step)
  have "T div 3600 = T div 60 div 60" by (simp add: div_mult2_eq [symmetric])
  also have "\<dots> = D * 24 + h"
    unfolding T60 using assms(3,4) by (rule divmod_step)
  finally have T3600: "T div 3600 = D * 24 + h" .
  show "T div 3600 mod 24 = h"
    unfolding T3600 using assms(1,2) by (rule divmod_step)
  have "T div 86400 = T div 3600 div 24" by (simp add: div_mult2_eq [symmetric])
  also have "\<dots> = D"
    unfolding T3600 using assms(1,2) by (rule divmod_step)
  finally show "T div 86400 = D" .
qed

lemma calendar_roundtrip_table:
  assumes y: "1970 \<le> year f" "year f < 65536"
    and mo: "1 \<le> month f" "month f \<le> 12"
    and h: "0 \<le> hours f" "hours f < 24"
    and mi: "0 \<le> minutes f" "minutes f < 60"
    and sec: "0 \<le> seconds f" "seconds f < 60"
    and ms: "0 \<le> millis f" "millis f < 1000"
  defines "r \<equiv> nat ((year f - 1970) mod 4)"
  defines "m \<equiv> nat (month f - 1)"
  assumes d: "1 \<le> day f" "day f \<le> month_len r m"
  defines "D \<equiv> (year f - 1970) div 4 * 1461 + days ! r ! m + (day f - 1)"
  defines "T \<equiv> ((D * 24 + hours f) * 60 + minutes f) * 60 + seconds f"
  assumes T: "T < 2147483648"
  shows "dateTimeToRtcTime f = Some (T * 1000 + millis f)"
    and "rtcTimeToDateTime dt (T * 1000 + millis f) = f"
proof -
  define g where "g = (year f - 1970) div 4"
  define u where "u = days ! r ! m + (day f - 1)"
  show "dateTimeToRtcTime f = Some (T * 1000 + millis f)"
    using dateTimeToRtcTime_in_range [OF y mo d(1) h(1) mi(1) sec(1) ms] T
    by (simp add: T_def D_def r_def m_def)
  have r4: "r < 4" by (simp add: r_def nat_less_iff)
  have m12: "m < 12" using mo by (simp add: m_def)
  have g0: "0 \<le> g" using y by (simp add: g_def)
  have e: "0 \<le> days ! r ! m" "days ! r ! 0 \<le> days ! r ! m"
    using table_entry_bounds [OF r4 m12] by simp_all
  have u_lo: "days ! r ! m \<le> u" using d(1) by (simp add: u_def)
  have u_hi: "u < days_next r m" using d(2) by (simp add: u_def month_len_def)
  have u: "0 \<le> u" "u < 1461"
    using e(1) u_lo u_hi days_next_le_group [OF r4 m12] by simp_all
  have D_eq: "D = g * 1461 + u" by (simp add: D_def g_def u_def)
  have D0: "0 \<le> D" using g0 u(1) by (simp add: D_eq)
  have T0: "0 \<le> T" using D0 h(1) mi(1) sec(1) by (simp add: T_def)
  have tdiv: "(T * 1000 + millis f) div 1000 = T" and tmod: "(T * 1000 + millis f) mod 1000 = millis f"
    using ms by (rule divmod_step)+
  have t: "0 \<le> T * 1000 + millis f" "(T * 1000 + millis f) div 1000 < 2147483648"
    using T0 ms(1) T by (simp_all add: tdiv)
  note pieces = seconds_pieces [OF h mi sec, of D, folded T_def]
  have Ddiv: "D div 1461 = g" and Dmod: "D mod 1461 = u"
    unfolding D_eq using u by (rule divmod_step)+
  have sy: "scan_year u 3 = r"
  proof (rule scan_year_unique)
    show "r \<le> 3" using r4 by simp
    show "days ! r ! 0 \<le> u" using e(2) u_lo by simp
    fix j assume "r < j" "j \<le> 3"
    then have "days_next r m \<le> days ! j ! 0"
      using m12 by (intro days_next_le_row) simp_all
    with u_hi show "u < days ! j ! 0" by simp
  qed
  have sm: "scan_month u r 11 = m"
  proof (rule scan_month_unique)
    show "m \<le> 11" using m12 by simp
    show "days ! r ! m \<le> u" by (rule u_lo)
    fix j assume "m < j" "j \<le> 11"
    then have "days_next r m \<le> days ! r ! j"
      using r4 by (intro days_next_le_col) simp_all
    with u_hi show "u < days ! r ! j" by simp
  qed
  have yr: "g * 4 + int r + 1970 = year f"
    using y by (simp add: g_def r_def)
  have mn: "int m + 1 = month f" using mo by (simp add: m_def)
  have dy: "u - days ! r ! m + 1 = day f" by (simp add: u_def)
  show "rtcTimeToDateTime dt (T * 1000 + millis f) = f"
    unfolding rtcTimeToDateTime_in_range [OF t] tdiv tmod pieces Ddiv Dmod sy sm yr mn dy
    by simp
qed

section \<open>Round trips\<close>

text \<open>
  Claim C1, as amended: for every epoch scalar \<open>E \<ge> 0\<close> whose count of whole seconds fits
  an \<^verbatim>\<open>int32_t\<close> (\<open>E div 1000 \<le> 2^31 - 1\<close>), \<^verbatim>\<open>rtcTimeToDateTime\<close> followed by
  \<^verbatim>\<open>dateTimeToRtcTime\<close> yields \<open>E\<close> exactly.
\<close>

theorem epoch_calendar_epoch_roundtrip:
  assumes "0 \<le> E" and "E div 1000 \<le> 2147483647"
  shows "dateTimeToRtcTime (rtcTimeToDateTime dt E) = Some E"
  using assms by (intro epoch_roundtrip) simp_all

theorem epoch_calendar_epoch_roundtrip_witness:
  "(0::int) \<le> 1704460022123 \<and> (1704460022123::int) div 1000 \<le> 2147483647
   \<and> dateTimeToRtcTime (rtcTimeToDateTime local_init 1704460022123) = Some 1704460022123"
  using epoch_calendar_epoch_roundtrip [of 1704460022123 local_init] by simp

text \<open>
  One second past the \<^verbatim>\<open>int32_t\<close> range the seconds wrap to \<open>- 2^31\<close>, the fields are
  those of no date, and the way back gives another scalar.
\<close>

theorem epoch_roundtrip_beyond_int32:
  "(0::int) \<le> 2147483648000
   \<and> rtcTimeToDateTime local_init 2147483648000 =
       \<lparr>year = 1902, month = 1, day = 239, hours = 253, minutes = 242, seconds = 248, millis = 0\<rparr>
   \<and> dateTimeToRtcTime (rtcTimeToDateTime local_init 2147483648000) = Some (- 2124428032000)
   \<and> dateTimeToRtcTime (rtcTimeToDateTime local_init 2147483648000) \<noteq> Some 2147483648000"
  by code_simp

text \<open>
  Claim C10: for every epoch scalar \<open>E \<ge> 0\<close> whose count of whole seconds fits an
  \<^verbatim>\<open>int32_t\<close>, the fields that \<^verbatim>\<open>rtcTimeToDateTime\<close> produces are in their nominal ranges
  (month 1-12, day 1-31, hours 0-23, minutes 0-59, seconds 0-59, millis 0-999); the two
  downward scans of the table end on a row index below 4 and a column index below 12.
\<close>

theorem epoch_fields_nominal:
  assumes "0 \<le> E" and "E div 1000 \<le> 2147483647"
  shows "nominal_range (rtcTimeToDateTime dt E)
       \<and> scan_year u 3 < 4 \<and> scan_month u y 11 < 12"
proof -
  have t: "0 \<le> E" "E div 1000 < 2147483648" using assms by simp_all
  define v where "v = E div 1000 div 86400 mod 1461"
  have v: "0 \<le> v" "v < 1461" by (simp_all add: v_def)
  note pos = scan_position [OF v]
  have len: "days_next (scan_year v 3) (scan_month v (scan_year v 3) 11)
      - days ! scan_year v 3 ! scan_month v (scan_year v 3) 11 \<le> 31"
    using month_len_bounds(2) [OF pos(1,2)] by (simp add: month_len_def)
  have md: "a mod 24 \<le> 23" "a mod 60 \<le> 59" "a mod 1000 \<le> 999" for a :: int
    using pos_mod_bound [of 24 a] pos_mod_bound [of 60 a] pos_mod_bound [of 1000 a] by simp_all
  have "nominal_range (rtcTimeToDateTime dt E)"
    unfolding rtcTimeToDateTime_in_range [OF t] v_def [symmetric] nominal_range_def
    using pos len by (simp add: md)
  moreover have "scan_year u 3 < 4" using scan_year_le [of u 3] by simp
  moreover have "scan_month u y 11 < 12" using scan_month_le [of u y 11] by simp
  ultimately show ?thesis by simp
qed

theorem epoch_fields_nominal_witness:
  "(0::int) \<le> 2147483647999 \<and> (2147483647999::int) div 1000 \<le> 2147483647
   \<and> nominal_range (rtcTimeToDateTime local_init 2147483647999)"
  using epoch_fields_nominal [of 2147483647999 local_init] by simp

lemma month_len_real:
  assumes "r < 4" "m < 12"
  shows "(if m = 1 then 28 else if m \<in> {3, 5, 8, 10} then 30 else 31) \<le> month_len r m"
  using row_cases [OF assms(1)] col_cases [OF assms(2)]
  by (auto simp: month_len_def days_next_def days_def)

lemma fits_int32_total:
  assumes y: "1970 \<le> year f" and fit: "fits_int32 f"
    and mo: "1 \<le> month f" "month f \<le> 12"
    and h: "0 \<le> hours f" "hours f < 24"
    and mi: "0 \<le> minutes f" "minutes f < 60"
    and sec: "0 \<le> seconds f" "seconds f < 60"
    and d: "1 \<le> day f" "day f \<le> month_len (nat ((year f - 1970) mod 4)) (nat (month f - 1))"
  shows "((((year f - 1970) div 4 * 1461 + days ! nat ((year f - 1970) mod 4) ! nat (month f - 1)
            + (day f - 1)) * 24 + hours f) * 60 + minutes f) * 60 + seconds f < 2147483648"
proof -
  define r where "r = nat ((year f - 1970) mod 4)"
  define m where "m = nat (month f - 1)"
  define g where "g = (year f - 1970) div 4"
  define u where "u = days ! r ! m + (day f - 1)"
  have r4: "r < 4" by (simp add: r_def nat_less_iff)
  have m12: "m < 12" using mo by (simp add: m_def)
  have u: "u < 1461"
    using d(2) days_next_le_group [OF r4 m12] by (simp add: u_def month_len_def r_def m_def)
  have goal: "?thesis \<longleftrightarrow> (((g * 1461 + u) * 24 + hours f) * 60 + minutes f) * 60 + seconds f < 2147483648"
    by (simp add: g_def u_def r_def m_def)
  show ?thesis
  proof (cases "year f < 2038")
    case True
    then have "g \<le> 16" by (simp add: g_def)
    then show ?thesis unfolding goal using u h mi sec by simp
  next
    case False
    with fit have f: "year f = 2038" "month f = 1"
      and rest: "day f < 19 \<or> (day f = 19 \<and> (hours f < 3 \<or>
           (hours f = 3 \<and> (minutes f < 14 \<or> (minutes f = 14 \<and> seconds f \<le> 7)))))"
      by (auto simp: fits_int32_def)
    have gu: "g = 17" "u = day f - 1"
      using f by (simp_all add: g_def u_def r_def m_def days_def)
    show ?thesis unfolding goal gu using rest h mi sec by auto
  qed
qed

text \<open>
  Claim C2, as amended: for every record of calendar fields with year at least 1970, whose
  count of whole seconds fits an \<^verbatim>\<open>int32_t\<close> (up to 2038-01-19T03:14:07), month 1-12, day
  a day of that month other than a February 29, hours 0-23, minutes 0-59, seconds 0-59 and
  millis 0-999, \<^verbatim>\<open>dateTimeToRtcTime\<close> returns an epoch scalar that \<^verbatim>\<open>rtcTimeToDateTime\<close>
  converts back to the same fields.
\<close>

theorem calendar_epoch_calendar_roundtrip:
  assumes "1970 \<le> year f" and "fits_int32 f"
    and "1 \<le> month f" and "month f \<le> 12"
    and "1 \<le> day f"
    and "day f \<le> (if month f = 2 then 28 else if month f \<in> {4, 6, 9, 11} then 30 else 31)"
    and "0 \<le> hours f" and "hours f \<le> 23"
    and "0 \<le> minutes f" and "minutes f \<le> 59"
    and "0 \<le> seconds f" and "seconds f \<le> 59"
    and "0 \<le> millis f" and "millis f \<le> 999"
  shows "\<exists>E. dateTimeToRtcTime f = Some E \<and> rtcTimeToDateTime dt E = f"
proof -
  define r where "r = nat ((year f - 1970) mod 4)"
  define m where "m = nat (month f - 1)"
  have r4: "r < 4" by (simp add: r_def nat_less_iff)
  have m12: "m < 12" using assms(3,4) by (simp add: m_def)
  have "(if m = 1 then 28 else if m \<in> {3, 5, 8, 10} then 30 else 31) = 
        (if month f = 2 then 28 else if month f \<in> {4, 6, 9, 11} then (30::int) else 31)"
    using assms(3,4) by (auto simp: m_def)
  then have d: "day f \<le> month_len r m"
    using month_len_real [OF r4 m12] assms(6) by simp
  have y: "year f < 65536" using assms(2) by (auto simp: fits_int32_def)
  have b: "hours f < 24" "minutes f < 60" "seconds f < 60" "millis f < 1000"
    using assms by simp_all
  have T: "((((year f - 1970) div 4 * 1461 + days ! nat ((year f - 1970) mod 4) ! nat (month f - 1)
            + (day f - 1)) * 24 + hours f) * 60 + minutes f) * 60 + seconds f < 2147483648"
    using assms(1,2,3,4) assms(7) b(1) assms(9) b(2) assms(11) b(3) assms(5) d [unfolded r_def m_def]
    by (rule fits_int32_total)
  note rt = calendar_roundtrip_table [OF assms(1) y assms(3,4) assms(7) b(1) assms(9) b(2)
      assms(11) b(3) assms(13) b(4) assms(5) d [unfolded r_def m_def] T]
  show ?thesis using rt(1) rt(2) [of dt] by blast
qed

theorem calendar_epoch_calendar_roundtrip_witness:
  "\<exists>E. dateTimeToRtcTime
          \<lparr>year = 2024, month = 1, day = 5, hours = 13, minutes = 7, seconds = 2, millis = 123\<rparr> = Some E
      \<and> rtcTimeToDateTime local_init E =
          \<lparr>year = 2024, month = 1, day = 5, hours = 13, minutes = 7, seconds = 2, millis = 123\<rparr>"
  using calendar_epoch_calendar_roundtrip
    [of "\<lparr>year = 2024, month = 1, day = 5, hours = 13, minutes = 7, seconds = 2, millis = 123\<rparr>" local_init]
  by (simp add: fits_int32_def)

text \<open>
  The fields of 2200-01-01 are valid, their seconds do not fit an \<^verbatim>\<open>int32_t\<close>, and the
  round trip ends on other fields.
\<close>

theorem calendar_roundtrip_beyond_int32:
  "dateTimeToRtcTime
      \<lparr>year = 2200, month = 1, day = 1, hours = 0, minutes = 0, seconds = 0, millis = 0\<rparr>
     = Some (- 1331643392000)
   \<and> rtcTimeToDateTime local_init (- 1331643392000) =
      \<lparr>year = 1930, month = 1, day = 223, hours = 244, minutes = 200, seconds = 224, millis = 0\<rparr>"
  by code_simp

text \<open>
  Claim C3, the leap day: the table has its 29-day February in row 0, the years 1970, 1974,
  ..., and a 28-day February in row 2, the leap years 1972, 1976, ... So 1972-02-29 gets the
  epoch scalar of 1972-03-01 and comes back as 1972-03-01, and day 59 of the epoch, which is
  1970-03-01, is converted to a February 29 of 1970.
\<close>

theorem leap_day_1972_collides:
  "dateTimeToRtcTime
      \<lparr>year = 1972, month = 2, day = 29, hours = 0, minutes = 0, seconds = 0, millis = 0\<rparr>
     = Some 68256000000
   \<and> rtcTimeToDateTime local_init 68256000000 =
      \<lparr>year = 1972, month = 3, day = 1, hours = 0, minutes = 0, seconds = 0, millis = 0\<rparr>
   \<and> dateTimeToRtcTime
      \<lparr>year = 1972, month = 3, day = 1, hours = 0, minutes = 0, seconds = 0, millis = 0\<rparr>
     = Some 68256000000
   \<and> rtcTimeToDateTime local_init (59 * 86400000) =
      \<lparr>year = 1970, month = 2, day = 29, hours = 0, minutes = 0, seconds = 0, millis = 0\<rparr>"
  by code_simp

section \<open>The clock\<close>

lemma to_int64_zero_iff:
  assumes "- 9223372036854775808 \<le> t" "t < 9223372036854775808" "0 \<le> now" "now < 4294967296"
  shows "to_int64 (t - now) = 0 \<longleftrightarrow> t = now"
proof (cases "- 9223372036854775808 \<le> t - now")
  case True
  then have "to_int64 (t - now) = t - now" using assms by (intro to_int64_id) simp_all
  then show ?thesis by simp
next
  case False
  have "(t - now + 9223372036854775808) mod 18446744073709551616
      = (t - now + 9223372036854775808 + 18446744073709551616) mod 18446744073709551616"
    by (rule mod_add_self2 [symmetric])
  also have "\<dots> = t - now + 9223372036854775808 + 18446744073709551616"
    using False assms by (intro mod_pos_pos_trivial) simp_all
  finally have "to_int64 (t - now) = t - now + 18446744073709551616"
    by (simp add: to_int64_def)
  with False assms show ?thesis by simp
qed

lemma rtc_run_gets: "rtc_run started (map (Pair Get) nows) = started"
  by (induction nows) (simp_all add: rtc_run_def)

lemma rtc_run_append: "rtc_run started (xs @ ys) = rtc_run (rtc_run started xs) ys"
  by (simp add: rtc_run_def)

text \<open>
  Claim C4, as amended: \<^verbatim>\<open>rtcHasTime()\<close> is false in the initial state; immediately after
  \<^verbatim>\<open>rtcSet(E)\<close> at uptime \<open>now\<close> it is true exactly when \<open>E \<noteq> now\<close>, the stored offset
  being \<open>E - now\<close>; \<^verbatim>\<open>rtcGet\<close> never changes the state. So after any run of operations
  \<^verbatim>\<open>rtcHasTime()\<close> is decided by the last \<^verbatim>\<open>rtcSet\<close> alone.
\<close>

theorem rtc_has_time_after_set:
  assumes "- 9223372036854775808 \<le> E" and "E < 9223372036854775808"
    and "0 \<le> now" and "now < 4294967296"
  shows "\<not> rtcHasTime started_init
       \<and> (rtcHasTime (fst (rtcSet started E now)) \<longleftrightarrow> E \<noteq> now)
       \<and> rtc_run started (map (Pair Get) nows) = started
       \<and> (rtcHasTime (rtc_run started (ops @ (Set E, now) # map (Pair Get) nows)) \<longleftrightarrow> E \<noteq> now)"
proof -
  have z: "to_int64 (E - now) = 0 \<longleftrightarrow> E = now"
    using assms by (rule to_int64_zero_iff)
  have "rtc_run started (ops @ (Set E, now) # map (Pair Get) nows)
      = rtc_run (rtc_run (rtc_run started ops) [(Set E, now)]) (map (Pair Get) nows)"
    using rtc_run_append [of started ops "[(Set E, now)] @ map (Pair Get) nows"]
      rtc_run_append [of "rtc_run started ops" "[(Set E, now)]" "map (Pair Get) nows"]
    by simp
  also have "\<dots> = to_int64 (E - now)"
    by (simp add: rtc_run_gets) (simp add: rtc_run_def rtcSet_def)
  finally have run: "rtc_run started (ops @ (Set E, now) # map (Pair Get) nows) = to_int64 (E - now)" .
  show ?thesis
    using z by (simp add: run rtc_run_gets rtcHasTime_def started_init_def rtcSet_def)
qed

theorem rtc_has_time_after_set_witness:
  "rtcHasTime (rtc_run started_init [(Get, 10), (Set 1704460022123 , 20), (Get, 30), (Get, 40)])"
  using rtc_has_time_after_set [of 1704460022123 20 started_init "[30, 40]" "[(Get, 10)]"]
  by simp

text \<open>
  A set to the current uptime stores the offset 0, which is the value of the unset clock:
  right after the first set, and after an earlier set that had established the time.
\<close>

theorem rtc_has_time_lost:
  "\<not> rtcHasTime (fst (rtcSet started_init 5000 5000))
   \<and> rtcHasTime (rtc_run started_init [(Set 1704460022123, 20)])
   \<and> \<not> rtcHasTime (rtc_run started_init [(Set 1704460022123, 20), (Get, 30), (Set 5000, 5000)])"
  by (simp add: rtc_run_def rtcSet_def rtcHasTime_def started_init_def to_int64_def)

text \<open>
  Claim C5, as amended: \<^verbatim>\<open>rtcSet(E)\<close> at uptime \<open>now\<close> returns true and stores
  \<open>E - now\<close>; a later \<^verbatim>\<open>rtcGet()\<close> at uptime \<open>later \<ge> now\<close> fails when \<open>E = now\<close> and
  otherwise succeeds with \<open>E + (later - now)\<close>, which is at least \<open>E\<close> (the two sums
  staying inside \<^verbatim>\<open>int64_t\<close>).
\<close>

theorem rtc_set_get:
  assumes "0 \<le> now" and "now \<le> later" and "later < 4294967296"
    and "- 9223372036854775808 \<le> E - now" and "E + (later - now) < 9223372036854775808"
  shows "snd (rtcSet started E now)
       \<and> fst (rtcSet started E now) = E - now
       \<and> rtcGet (fst (rtcSet started E now)) later
           = (if E = now then None else Some (E + (later - now)))
       \<and> E \<le> E + (later - now)"
proof -
  have s: "to_int64 (E - now) = E - now" using assms by (intro to_int64_id) simp_all
  have g: "to_int64 (E - now + later) = E + (later - now)"
    using assms by (simp add: to_int64_id)
  show ?thesis using assms(2) by (simp add: rtcSet_def rtcGet_def rtcHasTime_def s g)
qed

theorem rtc_set_get_witness:
  "rtcGet (fst (rtcSet started_init 1704460022123 20)) 35 = Some 1704460022138
   \<and> rtcGet (fst (rtcSet started_init 5000 5000)) 5001 = None"
  using rtc_set_get [of 20 35 1704460022123 started_init] rtc_set_get [of 5000 5001 5000 started_init]
  by (simp add: rtcSet_def to_int64_def)

text \<open>After a set to the current uptime the next get fails.\<close>

theorem rtc_get_fails_after_set:
  "snd (rtcSet started_init 5000 5000) \<and> rtcGet (fst (rtcSet started_init 5000 5000)) 5001 = None"
  by (simp add: rtcSet_def rtcGet_def rtcHasTime_def started_init_def to_int64_def)

text \<open>
  Claim C6: when \<^verbatim>\<open>rtcGet\<close> succeeds with \<open>t\<close>, \<^verbatim>\<open>rtcGetDateTime\<close> returns the fields
  \<open>rtcTimeToDateTime t\<close> and true; when it fails, \<^verbatim>\<open>rtcGetDateTime\<close> returns false and
  the fields 0000-01-01T00:00:00.000.
\<close>

theorem rtcGetDateTime_result:
  "(\<forall>t. rtcGet started now = Some t \<longrightarrow> rtcGetDateTime started now dt = (rtcTimeToDateTime dt t, True))
   \<and> (rtcGet started now = None \<longrightarrow> rtcGetDateTime started now dt =
        (\<lparr>year = 0, month = 1, day = 1, hours = 0, minutes = 0, seconds = 0, millis = 0\<rparr>, False))"
  by (cases dt) (simp add: rtcGetDateTime_def)

theorem rtcGetDateTime_result_witness:
  "rtcGet 1704460022103 20 = Some 1704460022123
   \<and> rtcGetDateTime 1704460022103 20 local_init =
       (\<lparr>year = 2024, month = 1, day = 4, hours = 13, minutes = 7, seconds = 2, millis = 123\<rparr>, True)
   \<and> rtcGet started_init 20 = None
   \<and> rtcGetDateTime started_init 20 local_init =
       (\<lparr>year = 0, month = 1, day = 1, hours = 0, minutes = 0, seconds = 0, millis = 0\<rparr>, False)"
proof -
  have g: "rtcGet 1704460022103 20 = Some 1704460022123"
    by (simp add: rtcGet_def rtcHasTime_def to_int64_def)
  have n: "rtcGet started_init 20 = None"
    by (simp add: rtcGet_def rtcHasTime_def started_init_def)
  have f: "rtcTimeToDateTime local_init 1704460022123 =
      \<lparr>year = 2024, month = 1, day = 4, hours = 13, minutes = 7, seconds = 2, millis = 123\<rparr>"
    by code_simp
  show ?thesis
    using rtcGetDateTime_result [of 1704460022103 20 local_init]
      rtcGetDateTime_result [of started_init 20 local_init] g n f
    by simp
qed

section \<open>Formatting\<close>

lemma fmt_d_two_digits:
  assumes "0 \<le> n" "n < 100"
  shows "fmt_d 2 n = [digit (nat (n div 10)), digit (nat (n mod 10))]"
proof (cases "n < 10")
  case True
  with assms have "nat n < 10" by arith
  then have "decimal (nat n) = [digit (nat n)]" by (subst decimal.simps) simp
  moreover have "n div 10 = 0" "n mod 10 = n" using True assms by simp_all
  moreover have "digit 0 = CHR ''0''" by (simp add: digit_def)
  ultimately show ?thesis using assms by (simp add: fmt_d_def zero_pad_def)
next
  case False
  with assms have n: "\<not> nat n < 10" "nat n div 10 < 10" by arith+
  have "decimal (nat n) = decimal (nat n div 10) @ [digit (nat n mod 10)]"
    using n(1) by (subst decimal.simps) simp
  also have "decimal (nat n div 10) = [digit (nat n div 10)]"
    using n(2) by (subst decimal.simps) simp
  finally have "decimal (nat n) = [digit (nat n div 10), digit (nat n mod 10)]" by simp
  moreover have "nat n div 10 = nat (n div 10)" "nat n mod 10 = nat (n mod 10)"
    using assms by (simp_all add: nat_div_distrib nat_mod_distrib)
  ultimately show ?thesis using assms by (simp add: fmt_d_def zero_pad_def)
qed

lemma dateTimeToRtcTime_defined:
  assumes "1 \<le> month f" "month f \<le> 12"
  shows "\<exists>t. dateTimeToRtcTime f = Some t"
proof -
  have m: "to_uint (month f - 1) = month f - 1" using assms by (simp add: to_uint_id)
  have "nat (to_uint (year f - UNIX_REFERENCE_YEAR) mod 4) < 4" by (simp add: nat_less_iff)
  moreover have "nat (month f - 1) < 12" using assms by simp
  ultimately obtain d where "days_at (nat (to_uint (year f - UNIX_REFERENCE_YEAR) mod 4)) (nat (month f - 1)) = Some d"
    by (simp add: days_at_def)
  then show ?thesis by (simp add: dateTimeToRtcTime_def Let_def m)
qed

lemma dateTimeFormat_suffix:
  assumes "1 \<le> month f" "month f \<le> 12" "offset \<noteq> 0"
  shows "\<exists>body. dateTimeFormat f offset =
     Some (body @ [if offset sdiv 60 \<ge> 0 then CHR ''+'' else CHR ''-'']
           @ fmt_d 2 (ABS (offset sdiv 60)) @ '':'' @ fmt_d 2 (ABS (offset smod 60)))"
proof -
  obtain t where t: "dateTimeToRtcTime f = Some t"
    using dateTimeToRtcTime_defined [OF assms(1,2)] by blast
  define loc where "loc = rtcTimeToDateTime local_init
     (rtcTimeMake (to_int32 (rtcTimeGetSeconds t + offset * 60)) (rtcTimeGetMillis t))"
  define body where "body = fmt_u 4 (year loc) @ ''-'' @ fmt_u 2 (month loc) @ ''-''
     @ fmt_u 2 (day loc) @ ''T'' @ fmt_u 2 (hours loc) @ '':'' @ fmt_u 2 (minutes loc) @ '':''
     @ fmt_u 2 (seconds loc) @ ''.'' @ fmt_u 3 (millis loc)"
  have "dateTimeFormat f offset =
     Some (body @ [if offset sdiv 60 \<ge> 0 then CHR ''+'' else CHR ''-'']
           @ fmt_d 2 (ABS (offset sdiv 60)) @ '':'' @ fmt_d 2 (ABS (offset smod 60)))"
    using assms(3) by (simp add: dateTimeFormat_def t Let_def loc_def body_def)
  then show ?thesis by blast
qed

text \<open>
  Claim C7: \<^verbatim>\<open>dateTimeFormatUTC\<close> prints the fields as they are, followed by \<open>+00:00\<close>;
  for the fields of the epoch scalar 0 the string is \<open>1970-01-01T00:00:00.000+00:00\<close>.
\<close>

theorem format_utc:
  "dateTimeFormatUTC f =
     Some (fmt_u 4 (year f) @ ''-'' @ fmt_u 2 (month f) @ ''-'' @ fmt_u 2 (day f) @ ''T''
           @ fmt_u 2 (hours f) @ '':'' @ fmt_u 2 (minutes f) @ '':'' @ fmt_u 2 (seconds f)
           @ ''.'' @ fmt_u 3 (millis f) @ ''+00:00'')
   \<and> dateTimeFormatUTC (rtcTimeToDateTime dt 0) = Some ''1970-01-01T00:00:00.000+00:00''"
proof -
  have z: "fmt_d 2 0 = ''00''" using fmt_d_two_digits [of 0] by (simp add: digit_def)
  have a: "dateTimeFormatUTC f =
     Some (fmt_u 4 (year f) @ ''-'' @ fmt_u 2 (month f) @ ''-'' @ fmt_u 2 (day f) @ ''T''
           @ fmt_u 2 (hours f) @ '':'' @ fmt_u 2 (minutes f) @ '':'' @ fmt_u 2 (seconds f)
           @ ''.'' @ fmt_u 3 (millis f) @ ''+00:00'')" for f
    by (simp add: dateTimeFormatUTC_def dateTimeFormat_def ABS_def z)
  have e: "rtcTimeToDateTime dt 0 = rtcTimeToDateTime local_init 0"
    by (simp add: rtcTimeToDateTime_fields)
  have b: "dateTimeFormatUTC (rtcTimeToDateTime local_init 0) = Some ''1970-01-01T00:00:00.000+00:00''"
    by code_simp
  show ?thesis using a [of f] b by (simp only: e)
qed

text \<open>
  Claim C8: with \<open>tz_offset = 330\<close> the fields of 1970-01-01T00:00:00.000 are printed as
  \<open>1970-01-01T05:30:00.000+05:30\<close>; with \<open>tz_offset = -300\<close> the string ends with
  \<open>-05:00\<close>, whatever the fields (the month being one of the table).
\<close>

theorem format_local_offsets:
  "dateTimeFormatLocal 330
      \<lparr>year = 1970, month = 1, day = 1, hours = 0, minutes = 0, seconds = 0, millis = 0\<rparr>
     = Some ''1970-01-01T05:30:00.000+05:30''
   \<and> (\<forall>f. 1 \<le> month f \<and> month f \<le> 12 \<longrightarrow>
         (\<exists>body. dateTimeFormatLocal (- 300) f = Some (body @ ''-05:00'')))"
proof -
  have a: "dateTimeFormatLocal 330
      \<lparr>year = 1970, month = 1, day = 1, hours = 0, minutes = 0, seconds = 0, millis = 0\<rparr>
     = Some ''1970-01-01T05:30:00.000+05:30''"
    by code_simp
  have h: "(- 300 :: int) sdiv 60 = - 5" "(- 300 :: int) smod 60 = 0"
    by (simp_all add: signed_divide_int_def signed_modulo_int_def)
  have d: "fmt_d 2 5 = ''05''" "fmt_d 2 0 = ''00''"
    using fmt_d_two_digits [of 5] fmt_d_two_digits [of 0] by (simp_all add: digit_def)
  have b: "\<exists>body. dateTimeFormatLocal (- 300) f = Some (body @ ''-05:00'')"
    if "1 \<le> month f" "month f \<le> 12" for f
    using dateTimeFormat_suffix [OF that, of "- 300"]
    by (simp add: dateTimeFormatLocal_def h d ABS_def)
  show ?thesis using a b by blast
qed

theorem format_local_offsets_witness:
  "\<exists>body. dateTimeFormatLocal (- 300)
      \<lparr>year = 1970, month = 1, day = 1, hours = 0, minutes = 0, seconds = 0, millis = 0\<rparr>
     = Some (body @ ''-05:00'')"
  using format_local_offsets by simp

text \<open>
  Claim C9: for every offset between -59 and -1 the hours \<open>offset / 60\<close> are 0, so the sign
  printed is \<open>+\<close>, followed by \<open>00:\<close> and the two digits of \<open>- offset\<close>.
\<close>

theorem format_local_sign_lost:
  assumes "- 60 < offset" and "offset < 0" and "1 \<le> month f" and "month f \<le> 12"
  shows "offset sdiv 60 = 0
       \<and> (\<exists>body. dateTimeFormatLocal offset f =
             Some (body @ ''+00:'' @ [digit (nat (- offset div 10)), digit (nat (- offset mod 10))]))"
proof -
  have q: "offset sdiv 60 = 0" and r: "offset smod 60 = offset"
    using assms(1,2) by (simp_all add: signed_divide_int_def signed_modulo_int_def sgn_if)
  have z: "fmt_d 2 0 = ''00''" using fmt_d_two_digits [of 0] by (simp add: digit_def)
  have m: "fmt_d 2 (- offset) = [digit (nat (- offset div 10)), digit (nat (- offset mod 10))]"
    using assms(1,2) by (intro fmt_d_two_digits) simp_all
  have "\<exists>body. dateTimeFormatLocal offset f =
             Some (body @ ''+00:'' @ [digit (nat (- offset div 10)), digit (nat (- offset mod 10))])"
    using dateTimeFormat_suffix [OF assms(3,4), of offset] assms(1,2)
    by (simp add: dateTimeFormatLocal_def q r z m ABS_def)
  with q show ?thesis by simp
qed

theorem format_local_sign_lost_witness:
  "- 60 < (- 30 :: int) \<and> (- 30 :: int) < 0
   \<and> (\<exists>body. dateTimeFormatLocal (- 30)
         \<lparr>year = 1970, month = 1, day = 2, hours = 0, minutes = 0, seconds = 0, millis = 0\<rparr>
        = Some (body @ ''+00:30''))"
  using format_local_sign_lost [of "- 30"
      "\<lparr>year = 1970, month = 1, day = 2, hours = 0, minutes = 0, seconds = 0, millis = 0\<rparr>"]
  by (simp add: digit_def)

end
